theory Spec2Isabelle
  imports Main "HOL-Library.AList"
begin

section \<open>JavaScript values and plain objects\<close>

text \<open>
  The dashboard's client scripts pass plain JavaScript objects (tasks, results, parsed
  JSON documents) between the DOM, the network and IndexedDB. A value is one of the
  JSON-shaped cases below; numbers are restricted to integers (the only numbers the
  scripts compute are issue tallies). An object is its list of own properties in
  insertion order; should a name occur twice in a list, its first entry is the property.
  The property names of the records themselves (tasks, results, documents) are taken to
  differ from the member names of \<^verbatim>\<open>Object.prototype\<close> (\<^verbatim>\<open>__proto__\<close>, \<^verbatim>\<open>constructor\<close>, ...) and
  from array indices, so reading a property of a record is a lookup in the list, writing
  one replaces it in place or appends it, and enumeration follows insertion order. Where
  a script indexes a plain object by a task id (\<^verbatim>\<open>domTasks\<close>) or by a header name
  (\<^verbatim>\<open>headersObj\<close>), the names are whatever the user or an imported file supplies, and the
  inherited members, the setter behind \<^verbatim>\<open>__proto__\<close> and the order of \<^verbatim>\<open>Object.keys\<close> are modelled
  there.
\<close>

datatype jsval =
    JUndef
  | JNull
  | JBool bool
  | JNum int
  | JStr string
  | JArr "jsval list"
  | JObj "(string \<times> jsval) list"

type_synonym obj = "(string \<times> jsval) list"

definition js_get :: "obj \<Rightarrow> string \<Rightarrow> jsval" where
  \<comment> \<open>\<^verbatim>\<open>o[k]\<close>: a missing property reads as \<^verbatim>\<open>undefined\<close>\<close>
  "js_get ob k = (case map_of ob k of Some v \<Rightarrow> v | None \<Rightarrow> JUndef)"

definition js_set :: "string \<Rightarrow> jsval \<Rightarrow> obj \<Rightarrow> obj" where
  \<comment> \<open>\<^verbatim>\<open>o[k] = v\<close>\<close>
  "js_set k v ob = AList.update k v ob"

fun truthy :: "jsval \<Rightarrow> bool" where
  "truthy JUndef = False"
| "truthy JNull = False"
| "truthy (JBool b) = b"
| "truthy (JNum n) = (n \<noteq> 0)"
| "truthy (JStr s) = (s \<noteq> [])"
| "truthy (JArr xs) = True"
| "truthy (JObj ps) = True"

definition Object_assign :: "obj \<Rightarrow> obj \<Rightarrow> obj" where
  \<comment> \<open>\<^verbatim>\<open>Object.assign(target, source)\<close>: every own property of the source, in order, is
      set on the target\<close>
  "Object_assign target source = fold (\<lambda>(k, v) t. js_set k v t) (AList.clearjunk source) target"

fun strict_eq :: "jsval \<Rightarrow> jsval \<Rightarrow> bool" where
  \<comment> \<open>\<^verbatim>\<open>a === b\<close> on values read back from the store: arrays and objects are fresh
      copies, never identical to anything else\<close>
  "strict_eq (JArr xs) b = False"
| "strict_eq (JObj ps) b = False"
| "strict_eq a b = (a = b)"

section \<open>The Durable Store (\<^verbatim>\<open>Pa11yPersistence\<close> over IndexedDB)\<close>

text \<open>
  Two object stores, \<^verbatim>\<open>tasks\<close> and \<^verbatim>\<open>results\<close>, both with key path \<^verbatim>\<open>id\<close>. Every id the
  dashboard produces is a string (a \<^verbatim>\<open>data-task-id\<close> attribute, a URL path segment, a
  generated UUID), so keys are strings here and a value whose \<^verbatim>\<open>id\<close> is missing or not a
  string is refused with a \<^verbatim>\<open>DataError\<close>, as IndexedDB refuses a value without a valid
  key (the numbers, dates and arrays it would also accept as keys are left out). Each
  table lists its records with their keys; the order in which IndexedDB enumerates a
  table is not modelled beyond being some fixed order.
\<close>

datatype error = DataError | TransactionError | TypeError | NotFound | EngineError

type_synonym table = "(string \<times> obj) list"

record durable =
  tasks :: table
  results :: table

definition key_of :: "jsval \<Rightarrow> string option" where
  \<comment> \<open>evaluating the key path \<^verbatim>\<open>id\<close> on a value\<close>
  "key_of v = (case v of JObj ob \<Rightarrow> (case js_get ob ''id'' of JStr k \<Rightarrow> Some k | _ \<Rightarrow> None)
                        | _ \<Rightarrow> None)"

definition put :: "jsval \<Rightarrow> table \<Rightarrow> error + table" where
  \<comment> \<open>\<^verbatim>\<open>objectStore.put(value)\<close>: insert, or replace the whole record under the same key\<close>
  "put v tbl = (case v of
       JObj ob \<Rightarrow> (case key_of v of Some k \<Rightarrow> Inr (AList.update k ob tbl) | None \<Rightarrow> Inl DataError)
     | _ \<Rightarrow> Inl DataError)"

definition saveTask :: "jsval \<Rightarrow> durable \<Rightarrow> error + durable" where
  "saveTask task db = (case put task (tasks db) of
       Inl e \<Rightarrow> Inl e | Inr tbl \<Rightarrow> Inr (db\<lparr>tasks := tbl\<rparr>))"

definition saveResult :: "jsval \<Rightarrow> durable \<Rightarrow> error + durable" where
  "saveResult result db = (case put result (results db) of
       Inl e \<Rightarrow> Inl e | Inr tbl \<Rightarrow> Inr (db\<lparr>results := tbl\<rparr>))"

definition getTask :: "string \<Rightarrow> durable \<Rightarrow> obj option" where
  \<comment> \<open>\<^verbatim>\<open>store.get(id)\<close>: the record, or \<^verbatim>\<open>undefined\<close> (here \<open>None\<close>)\<close>
  "getTask i db = map_of (tasks db) i"

definition getTasks :: "durable \<Rightarrow> obj list" where
  "getTasks db = map snd (tasks db)"

definition getResultsByTask :: "jsval \<Rightarrow> durable \<Rightarrow> obj list" where
  \<comment> \<open>the cursor loop keeping the values with \<^verbatim>\<open>value.task === taskId\<close>\<close>
  "getResultsByTask taskId db =
     filter (\<lambda>v. strict_eq (js_get v ''task'') taskId) (map snd (results db))"

text \<open>
  \<^verbatim>\<open>deleteTask\<close> opens one read-write transaction over both stores, deletes the task
  under the key and walks a cursor over \<^verbatim>\<open>results\<close>, deleting the record under the cursor
  whenever its \<^verbatim>\<open>task\<close> is the id and moving the cursor on; the promise is resolved by the transaction's
  \<^verbatim>\<open>complete\<close> event and rejected by its \<^verbatim>\<open>error\<close> event. A transaction works on the
  stores it spans request by request; when it completes, what its requests did becomes
  the content of the stores, and when a request fails, IndexedDB aborts the transaction
  and the stores keep the content they had when it began, whatever the earlier requests
  did. Which request fails, if any, is the platform's doing and a parameter here: its
  position among the requests the transaction issues.
\<close>

datatype request = Delete_task string | Open_cursor | Delete_at "string \<times> obj" | Continue

fun apply_request :: "request \<Rightarrow> durable \<Rightarrow> durable" where
  "apply_request (Delete_task i) db = db\<lparr>tasks := AList.delete i (tasks db)\<rparr>"
| "apply_request Open_cursor db = db"
| "apply_request (Delete_at record) db = db\<lparr>results := removeAll record (results db)\<rparr>"
| "apply_request Continue db = db"

definition at_cursor :: "string \<Rightarrow> string \<times> obj \<Rightarrow> request list" where
  \<comment> \<open>\<^verbatim>\<open>if (value && value.task === id) { cursor.delete(); } cursor.continue();\<close>\<close>
  "at_cursor i record =
     (if strict_eq (js_get (snd record) ''task'') (JStr i) then [Delete_at record] else []) @ [Continue]"

definition deleteTask_requests :: "string \<Rightarrow> durable \<Rightarrow> request list" where
  \<comment> \<open>the requests issued inside the transaction, in their order: \<^verbatim>\<open>delete(id)\<close> on the
      tasks, \<^verbatim>\<open>openCursor()\<close> on the results, then what the cursor's handler issues at each
      record\<close>
  "deleteTask_requests i db =
     Delete_task i # Open_cursor # concat (map (at_cursor i) (results db))"

fun run_requests :: "nat option \<Rightarrow> request list \<Rightarrow> durable \<Rightarrow> durable option" where
  \<comment> \<open>the requests at work on the transaction's view of the stores, up to the one that
      fails; \<open>None\<close> when one does\<close>
  "run_requests failing [] work = Some work"
| "run_requests failing (r # rs) work =
     (if failing = Some 0 then None
      else run_requests (map_option (\<lambda>n. n - 1) failing) rs (apply_request r work))"

definition transact :: "nat option \<Rightarrow> request list \<Rightarrow> durable \<Rightarrow> error option \<times> durable" where
  \<comment> \<open>one transaction: the reason the promise is rejected with, if it is, and the stores
      afterwards\<close>
  "transact failing requests db =
     (case run_requests failing requests db of
        Some work \<Rightarrow> (None, work)
      | None \<Rightarrow> (Some TransactionError, db))"

definition deleteTask :: "nat option \<Rightarrow> string \<Rightarrow> durable \<Rightarrow> error option \<times> durable" where
  "deleteTask failing i db = transact failing (deleteTask_requests i db) db"

definition after :: "error + durable \<Rightarrow> durable \<Rightarrow> durable" where
  \<comment> \<open>the store a caller finds after a single \<^verbatim>\<open>put\<close>: a refused one changed nothing\<close>
  "after r db = (case r of Inl e \<Rightarrow> db | Inr db' \<Rightarrow> db')"

section \<open>Export and import\<close>

definition collectData :: "durable \<Rightarrow> obj list \<times> obj list" where
  \<comment> \<open>\<^verbatim>\<open>{tasks, results}\<close>: the results are gathered task by task\<close>
  "collectData db =
     (let ts = getTasks db
      in (ts, concat (map (\<lambda>task. getResultsByTask (js_get task ''id'') db) ts)))"

text \<open>
  What the user sees at the end of a handler: the page reloads, or an alert appears. The
  alert is identified by the text the script itself writes; the message of a caught
  platform error, which some alerts append to it, is not modelled.
\<close>

datatype page_effect = Reload | Alert string

definition import_each :: "(jsval \<Rightarrow> durable \<Rightarrow> error + durable) \<Rightarrow> jsval list \<Rightarrow> durable \<Rightarrow> durable" where
  \<comment> \<open>\<^verbatim>\<open>array.map(x => save(x).catch(log))\<close>: a refused record is logged and skipped\<close>
  "import_each save xs db = fold (\<lambda>x d. after (save x d) d) xs db"

definition array_or_empty :: "jsval \<Rightarrow> jsval list" where
  \<comment> \<open>\<^verbatim>\<open>Array.isArray(x) ? x : []\<close>\<close>
  "array_or_empty v = (case v of JArr xs \<Rightarrow> xs | _ \<Rightarrow> [])"

definition member_of :: "jsval \<Rightarrow> string \<Rightarrow> error + jsval" where
  \<comment> \<open>\<^verbatim>\<open>v.k\<close> on an arbitrary value: a TypeError on \<^verbatim>\<open>null\<close> and \<^verbatim>\<open>undefined\<close>\<close>
  "member_of v k = (case v of JObj ob \<Rightarrow> Inr (js_get ob k)
                            | JNull \<Rightarrow> Inl TypeError | JUndef \<Rightarrow> Inl TypeError
                            | _ \<Rightarrow> Inr JUndef)"

definition onFileSelected :: "jsval option \<Rightarrow> durable \<Rightarrow> durable \<times> page_effect" where
  \<comment> \<open>the \<^verbatim>\<open>reader.onload\<close> handler; the argument is the outcome of \<^verbatim>\<open>JSON.parse\<close>,
      \<open>None\<close> when it throws\<close>
  "onFileSelected content db = (case content of
       None \<Rightarrow> (db, Alert ''Failed to import data. Ensure the JSON file is valid.'')
     | Some parsed \<Rightarrow> (case member_of parsed ''tasks'' of
         Inl e \<Rightarrow> (db, Alert ''Failed to import data. Ensure the JSON file is valid.'')
       | Inr ts \<Rightarrow> (case member_of parsed ''results'' of
           Inl e \<Rightarrow> (db, Alert ''Failed to import data. Ensure the JSON file is valid.'')
         | Inr rs \<Rightarrow>
             (import_each saveResult (array_or_empty rs)
                (import_each saveTask (array_or_empty ts) db), Reload))))"

text \<open>
  \<^verbatim>\<open>handleExport\<close> serialises the collected data with \<^verbatim>\<open>JSON.stringify\<close>; the import reads it
  back with \<^verbatim>\<open>JSON.parse\<close>. Through JSON an \<^verbatim>\<open>undefined\<close> property disappears and an
  \<^verbatim>\<open>undefined\<close> array element becomes \<^verbatim>\<open>null\<close>.
\<close>

fun JSON_roundtrip :: "jsval \<Rightarrow> jsval" where
  "JSON_roundtrip (JArr xs) = JArr (map (\<lambda>x. if x = JUndef then JNull else JSON_roundtrip x) xs)"
| "JSON_roundtrip (JObj ps) =
     JObj (map (\<lambda>(k, v). (k, JSON_roundtrip v)) (filter (\<lambda>(k, v). v \<noteq> JUndef) ps))"
| "JSON_roundtrip v = v"

definition exported_document :: "durable \<Rightarrow> jsval" where
  \<comment> \<open>what \<^verbatim>\<open>JSON.parse\<close> returns on the file written by \<^verbatim>\<open>handleExport\<close>\<close>
  "exported_document db =
     (let (ts, rs) = collectData db
      in JSON_roundtrip (JObj [(''tasks'', JArr (map JObj ts)), (''results'', JArr (map JObj rs))]))"

definition wf_table :: "table \<Rightarrow> bool" where
  \<comment> \<open>what IndexedDB guarantees of a store with key path \<^verbatim>\<open>id\<close>: one record per key, filed
      under its own \<^verbatim>\<open>id\<close>\<close>
  "wf_table tbl \<longleftrightarrow> distinct (map fst tbl) \<and> (\<forall>(k, ob) \<in> set tbl. js_get ob ''id'' = JStr k)"

definition empty_store :: durable where
  "empty_store = \<lparr>tasks = [], results = []\<rparr>"

section \<open>Strings\<close>

text \<open>
  Strings are lists of 8-bit characters, read as code units below 256. Among them the
  characters removed by \<^verbatim>\<open>String.prototype.trim\<close> (and matched by \<^verbatim>\<open>\s\<close>) are tab, line feed,
  vertical tab, form feed, carriage return, space and no-break space.
\<close>

definition is_space :: "char \<Rightarrow> bool" where
  "is_space c \<longleftrightarrow> (of_char c :: nat) \<in> {9, 10, 11, 12, 13, 32, 160}"

definition trim :: "string \<Rightarrow> string" where
  "trim s = rev (dropWhile is_space (rev (dropWhile is_space s)))"

definition strip_parens :: "string \<Rightarrow> string" where
  \<comment> \<open>\<^verbatim>\<open>if (s.charAt(0) === '(' && s.charAt(s.length - 1) === ')') s = s.slice(1, -1)\<close>\<close>
  "strip_parens s =
     (if s \<noteq> [] \<and> hd s = CHR ''('' \<and> last s = CHR '')'' then butlast (tl s) else s)"

fun show_nat :: "nat \<Rightarrow> string" where
  "show_nat n = (if n < 10 then [char_of (48 + n)]
                 else show_nat (n div 10) @ [char_of (48 + n mod 10)])"

declare show_nat.simps [simp del]

definition show_int :: "int \<Rightarrow> string" where
  "show_int i = (if i < 0 then CHR ''-'' # show_nat (nat (- i)) else show_nat (nat i))"

fun join :: "string \<Rightarrow> string list \<Rightarrow> string" where
  \<comment> \<open>\<^verbatim>\<open>array.join(sep)\<close>\<close>
  "join sep [] = []"
| "join sep [x] = x"
| "join sep (x # y # ys) = x @ sep @ join sep (y # ys)"

fun ToString :: "jsval \<Rightarrow> string" where
  \<comment> \<open>the string a value contributes to a concatenation\<close>
  "ToString JUndef = ''undefined''"
| "ToString JNull = ''null''"
| "ToString (JBool b) = (if b then ''true'' else ''false'')"
| "ToString (JNum n) = show_int n"
| "ToString (JStr s) = s"
| "ToString (JArr xs) = join '','' (map (\<lambda>x. if x = JUndef \<or> x = JNull then [] else ToString x) xs)"
| "ToString (JObj ps) = ''[object Object]''"

definition or_else :: "jsval \<Rightarrow> jsval \<Rightarrow> jsval" where
  \<comment> \<open>\<^verbatim>\<open>a || b\<close>\<close>
  "or_else a b = (if truthy a then a else b)"

definition nonempty_array :: "jsval \<Rightarrow> bool" where
  \<comment> \<open>\<^verbatim>\<open>Array.isArray(a) && a.length\<close>\<close>
  "nonempty_array v = (case v of JArr xs \<Rightarrow> xs \<noteq> [] | _ \<Rightarrow> False)"

section \<open>Issues, tallies and results\<close>

text \<open>
  The audit engine answers with \<^verbatim>\<open>{issues: [...]}\<close>; an issue carries \<^verbatim>\<open>code\<close>, \<^verbatim>\<open>type\<close>,
  \<^verbatim>\<open>message\<close>, \<^verbatim>\<open>context\<close> and \<^verbatim>\<open>selector\<close>, all strings. An answer without an issue array is
  \<open>None\<close>. Of the tally object only the three counts it starts with are modelled.
\<close>

record issue =
  issue_code :: string
  issue_type :: string
  issue_message :: string
  issue_context :: string
  issue_selector :: string

type_synonym pa11y_result = "issue list option"

record counts =
  error :: nat
  warning :: nat
  notice :: nat

definition no_counts :: counts where
  "no_counts = \<lparr>error = 0, warning = 0, notice = 0\<rparr>"

definition tally :: "issue \<Rightarrow> counts \<Rightarrow> counts" where
  \<comment> \<open>\<^verbatim>\<open>if (typeof counts[issue.type] === 'number') counts[issue.type]++\<close>: only the three
      properties the tally starts with are numbers\<close>
  "tally i c =
     (if issue_type i = ''error'' then c\<lparr>error := error c + 1\<rparr>
      else if issue_type i = ''warning'' then c\<lparr>warning := warning c + 1\<rparr>
      else if issue_type i = ''notice'' then c\<lparr>notice := notice c + 1\<rparr>
      else c)"

definition countIssues :: "pa11y_result \<Rightarrow> counts" where
  \<comment> \<open>run manager: \<^verbatim>\<open>result.issues.forEach(...)\<close> when \<^verbatim>\<open>result.issues\<close> is an array\<close>
  "countIssues r = (case r of Some issues \<Rightarrow> fold tally issues no_counts | None \<Rightarrow> no_counts)"

definition issue_js :: "issue \<Rightarrow> jsval" where
  "issue_js i = JObj [(''code'', JStr (issue_code i)), (''type'', JStr (issue_type i)),
                      (''message'', JStr (issue_message i)), (''context'', JStr (issue_context i)),
                      (''selector'', JStr (issue_selector i))]"

definition counts_js :: "counts \<Rightarrow> jsval" where
  "counts_js c = JObj [(''error'', JNum (int (error c))), (''warning'', JNum (int (warning c))),
                       (''notice'', JNum (int (notice c)))]"

record result =
  result_id :: string
  result_task :: jsval
  result_url :: jsval
  result_name :: jsval
  result_standard :: jsval
  result_date :: string
  result_count :: counts
  result_results :: "issue list"
  result_ignore :: jsval

definition result_js :: "result \<Rightarrow> obj" where
  \<comment> \<open>the result as the object that is stored\<close>
  "result_js r = [(''id'', JStr (result_id r)), (''task'', result_task r), (''url'', result_url r),
                  (''name'', result_name r), (''standard'', result_standard r),
                  (''date'', JStr (result_date r)), (''count'', counts_js (result_count r)),
                  (''results'', JArr (map issue_js (result_results r))),
                  (''ignore'', result_ignore r)]"

section \<open>The in-memory webservice (Ephemeral Store)\<close>

text \<open>
  Two \<^verbatim>\<open>Map\<close>s keyed by task id: the tasks and, per task, the list of its results. The
  generated id and the current time are arguments; so is the outcome of the engine call
  \<^verbatim>\<open>pa11y(task.url, options)\<close>, a rejection or an answer.
\<close>

record webservice =
  ws_tasks :: "(string \<times> obj) list"
  ws_results :: "(string \<times> jsval list) list"

definition transformResult :: "string \<Rightarrow> string \<Rightarrow> jsval \<Rightarrow> obj \<Rightarrow> pa11y_result \<Rightarrow> result" where
  \<comment> \<open>the \<^verbatim>\<open>map\<close> over \<^verbatim>\<open>pa11yResult.issues || []\<close> copies each issue and tallies it when
      \<^verbatim>\<open>count[issue.type] !== undefined\<close>\<close>
  "transformResult resultId date taskId task pa11yResult =
     (let issues = (case pa11yResult of Some xs \<Rightarrow> xs | None \<Rightarrow> [])
      in \<lparr>result_id = resultId, result_task = taskId, result_url = js_get task ''url'',
          result_name = js_get task ''name'', result_standard = js_get task ''standard'',
          result_date = date, result_count = fold tally issues no_counts,
          result_results = issues, result_ignore = or_else (js_get task ''ignore'') (JArr [])\<rparr>)"

definition ws_run :: "error + pa11y_result \<Rightarrow> string \<Rightarrow> string \<Rightarrow> string \<Rightarrow> webservice
                        \<Rightarrow> webservice \<times> error option" where
  \<comment> \<open>\<^verbatim>\<open>task(id).run\<close> with \<^verbatim>\<open>runTask\<close> inlined; the second component is the callback's error\<close>
  "ws_run engine resultId date i ws =
     (case map_of (ws_tasks ws) i of
        None \<Rightarrow> (ws, Some NotFound)
      | Some task \<Rightarrow>
          (case engine of
             Inl err \<Rightarrow> (ws, Some err)
           | Inr pa11yResult \<Rightarrow>
               (let r = JObj (result_js (transformResult resultId date (js_get task ''id'') task pa11yResult))
                in case js_get task ''id'' of
                     JStr k \<Rightarrow>
                       (case map_of (ws_results ws) k of
                          None \<Rightarrow> (ws, Some TypeError)
                        | Some list \<Rightarrow>
                            (ws\<lparr>ws_results := AList.update k (list @ [r]) (ws_results ws),
                                 ws_tasks := AList.update i (js_set ''last_result'' r task) (ws_tasks ws)\<rparr>,
                             None))
                   | _ \<Rightarrow> (ws, Some TypeError))))"

definition ws_remove :: "string \<Rightarrow> webservice \<Rightarrow> webservice \<times> error option" where
  \<comment> \<open>\<^verbatim>\<open>tasks.delete(id); results.delete(id); callback(null)\<close>\<close>
  "ws_remove i ws =
     (ws\<lparr>ws_tasks := AList.delete i (ws_tasks ws), ws_results := AList.delete i (ws_results ws)\<rparr>,
      None)"

datatype response = Redirect string

definition del_post :: "(string \<Rightarrow> 'ws \<Rightarrow> 'ws \<times> error option) \<Rightarrow> string \<Rightarrow> 'ws \<Rightarrow> 'ws \<times> response" where
  \<comment> \<open>\<^verbatim>\<open>POST /:id/delete\<close> over any webservice client: the callback ignores its error\<close>
  "del_post remove i ws = (case remove i ws of (ws', err) \<Rightarrow> (ws', Redirect ''/?deleted''))"

section \<open>The run manager\<close>

text \<open>
  \<^verbatim>\<open>runTask\<close> of the client reads the task from the Durable Store, falling back on the
  header of the task page, posts the payload to \<^verbatim>\<open>/api/run\<close> and stores the result. The
  header is what the three queries on \<^verbatim>\<open>.task-header\<close> find; \<^verbatim>\<open>fetch\<close> maps the payload to
  the outcome of the request: a network failure, or a response with its status and
  the parsed body (\<open>None\<close> when the body is not JSON).
\<close>

record task_header =
  h1_text :: "string option"
  link_href :: "string option"
  standard_text :: "string option"

datatype fetch_outcome = NetworkFailure | Response nat "pa11y_result option"

definition response_ok :: "nat \<Rightarrow> bool" where
  "response_ok status \<longleftrightarrow> 200 \<le> status \<and> status \<le> 299"

definition task_from_header :: "string \<Rightarrow> task_header option \<Rightarrow> obj option" where
  "task_from_header taskId header = (case header of
       None \<Rightarrow> None
     | Some h \<Rightarrow>
         (case (map_option trim (h1_text h), link_href h, map_option (strip_parens \<circ> trim) (standard_text h)) of
            (Some name, Some url, Some standard) \<Rightarrow>
              if name \<noteq> [] \<and> url \<noteq> [] \<and> standard \<noteq> []
              then Some [(''id'', JStr taskId), (''name'', JStr name), (''url'', JStr url),
                         (''standard'', JStr standard)]
              else None
          | _ \<Rightarrow> None))"

definition set_if :: "bool \<Rightarrow> string \<Rightarrow> jsval \<Rightarrow> obj \<Rightarrow> obj" where
  "set_if b k v ob = (if b then js_set k v ob else ob)"

definition run_payload :: "obj \<Rightarrow> obj" where
  "run_payload task =
     (set_if (truthy (js_get task ''headers'')) ''headers'' (js_get task ''headers'')
     (set_if (truthy (js_get task ''hideElements'')) ''hideElements'' (js_get task ''hideElements'')
     (set_if (truthy (js_get task ''password'')) ''password'' (js_get task ''password'')
     (set_if (truthy (js_get task ''username'')) ''username'' (js_get task ''username'')
     (set_if (nonempty_array (js_get task ''actions'')) ''actions'' (js_get task ''actions'')
     (set_if (truthy (js_get task ''wait'')) ''wait'' (js_get task ''wait'')
     (set_if (truthy (js_get task ''timeout'')) ''timeout'' (js_get task ''timeout'')
     (set_if (nonempty_array (js_get task ''ignore'')) ''ignore'' (js_get task ''ignore'')
        [(''url'', js_get task ''url''), (''standard'', js_get task ''standard'')]))))))))"

definition run_failure_alert :: page_effect where
  \<comment> \<open>the \<^verbatim>\<open>catch\<close> branch of \<^verbatim>\<open>runTask\<close>\<close>
  "run_failure_alert = Alert ''Failed to run accessibility analysis: ''"

definition client_result :: "string \<Rightarrow> string \<Rightarrow> string \<Rightarrow> obj \<Rightarrow> pa11y_result \<Rightarrow> result" where
  \<comment> \<open>\<^verbatim>\<open>resultObj\<close> of the run manager\<close>
  "client_result resultId date taskId task pa11yResult =
     \<lparr>result_id = resultId, result_task = JStr taskId, result_url = js_get task ''url'',
      result_name = js_get task ''name'', result_standard = js_get task ''standard'',
      result_date = date, result_count = countIssues pa11yResult,
      result_results = (case pa11yResult of Some xs \<Rightarrow> xs | None \<Rightarrow> []),
      result_ignore = or_else (js_get task ''ignore'') (JArr [])\<rparr>"

definition store_run :: "string \<Rightarrow> string \<Rightarrow> string \<Rightarrow> obj \<Rightarrow> pa11y_result \<Rightarrow> durable
                           \<Rightarrow> durable \<times> page_effect" where
  \<comment> \<open>after a good response: save the result, refresh \<^verbatim>\<open>last_result\<close>, save the task, reload;
      a refused write is caught like any other failure\<close>
  "store_run resultId date taskId task pa11yResult db =
     (let r = client_result resultId date taskId task pa11yResult
      in case saveResult (JObj (result_js r)) db of
           Inl e \<Rightarrow> (db, run_failure_alert)
         | Inr db1 \<Rightarrow>
             (case saveTask (JObj (js_set ''last_result''
                       (JObj [(''id'', JStr resultId), (''date'', JStr date),
                              (''count'', counts_js (result_count r))]) task)) db1 of
                Inl e \<Rightarrow> (db1, run_failure_alert)
              | Inr db2 \<Rightarrow> (db2, Reload)))"

definition runTask :: "task_header option \<Rightarrow> (obj \<Rightarrow> fetch_outcome) \<Rightarrow> string \<Rightarrow> string \<Rightarrow> string
                         \<Rightarrow> durable \<Rightarrow> durable \<times> page_effect" where
  "runTask header fetch resultId date taskId db =
     (let (found, db0) =
            (case getTask taskId db of
               Some task \<Rightarrow> (Some task, db)
             | None \<Rightarrow>
                 (case task_from_header taskId header of
                    Some task \<Rightarrow> (Some task, after (saveTask (JObj task) db) db)
                  | None \<Rightarrow> (None, db)))
      in case found of
           None \<Rightarrow> (db0, Alert ''Task not found in local storage'')
         | Some task \<Rightarrow>
             (case fetch (run_payload task) of
                NetworkFailure \<Rightarrow> (db0, run_failure_alert)
              | Response status body \<Rightarrow>
                  if \<not> response_ok status
                  then (db0, run_failure_alert)
                  else (case body of
                          None \<Rightarrow> (db0, run_failure_alert)
                        | Some pa11yResult \<Rightarrow> store_run resultId date taskId task pa11yResult db0)))"

definition fetch_failed :: "fetch_outcome \<Rightarrow> bool" where
  \<comment> \<open>the request errors, or the response is not ok\<close>
  "fetch_failed outcome = (case outcome of NetworkFailure \<Rightarrow> True
                                          | Response status body \<Rightarrow> \<not> response_ok status)"

definition last_result_of :: "string \<Rightarrow> durable \<Rightarrow> jsval" where
  \<comment> \<open>the \<^verbatim>\<open>last_result\<close> the store holds for a task, \<^verbatim>\<open>undefined\<close> when it holds none\<close>
  "last_result_of i db = (case getTask i db of Some t \<Rightarrow> js_get t ''last_result'' | None \<Rightarrow> JUndef)"

section \<open>The task list page\<close>

text \<open>
  A card is one \<^verbatim>\<open>li[data-role="task"]\<close> of \<^verbatim>\<open>#grid-container\<close>, described by what the scripts
  read from it or show in it: the \<^verbatim>\<open>data-task-id\<close> attribute, the link target, the
  texts of the first \<^verbatim>\<open>p.h3\<close>, \<^verbatim>\<open>p.h4\<close> and \<^verbatim>\<open>p.h5\<close> (empty when there is none), the texts of
  \<^verbatim>\<open>li.danger\<close>, \<^verbatim>\<open>li.warning\<close>, \<^verbatim>\<open>li.info\<close> and \<^verbatim>\<open>div.last-run\<close>, the \<^verbatim>\<open>span.run-count\<close> inside the
  latter, and \<^verbatim>\<open>p.no-results\<close> (\<open>None\<close> where the element is missing). Class names, the
  \<^verbatim>\<open>data-keywords\<close> attribute and the link title are left out.
\<close>

record card =
  data_task_id :: "string option"
  card_href :: string
  card_name :: string
  card_url :: string
  card_standard :: string
  danger_text :: "string option"
  warning_text :: "string option"
  info_text :: "string option"
  last_run_text :: "string option"
  run_count_text :: "string option"
  no_results_text :: "string option"

definition lower_ascii :: "char \<Rightarrow> char" where
  "lower_ascii c = (if 65 \<le> (of_char c :: nat) \<and> (of_char c :: nat) \<le> 90
                    then char_of ((of_char c :: nat) + 32) else c)"

definition is_digit :: "char \<Rightarrow> bool" where
  "is_digit c \<longleftrightarrow> 48 \<le> (of_char c :: nat) \<and> (of_char c :: nat) \<le> 57"

definition digits_value :: "string \<Rightarrow> nat" where
  "digits_value ds = fold (\<lambda>c n. 10 * n + ((of_char c :: nat) - 48)) ds 0"

definition parseInt :: "string \<Rightarrow> int option" where
  \<comment> \<open>\<^verbatim>\<open>parseInt(s, 10)\<close>; \<open>None\<close> is \<^verbatim>\<open>NaN\<close>\<close>
  "parseInt s =
     (let t = dropWhile is_space s;
          neg = (t \<noteq> [] \<and> hd t = CHR ''-'');
          u = (if t \<noteq> [] \<and> (hd t = CHR ''-'' \<or> hd t = CHR ''+'') then tl t else t);
          ds = takeWhile is_digit u
      in if ds = [] then None
         else Some (if neg then - int (digits_value ds) else int (digits_value ds)))"

definition parseInt_or_0 :: "string \<Rightarrow> int" where
  \<comment> \<open>\<^verbatim>\<open>parseInt(s, 10) || 0\<close>\<close>
  "parseInt_or_0 s = (case parseInt s of Some n \<Rightarrow> n | None \<Rightarrow> 0)"

definition strip_last_run :: "string \<Rightarrow> string" where
  \<comment> \<open>\<^verbatim>\<open>s.replace(/^Last run\s*/i, '')\<close>\<close>
  "strip_last_run s = (if map lower_ascii (take 8 s) = ''last run''
                       then dropWhile is_space (drop 8 s) else s)"


definition has_stats :: "card \<Rightarrow> bool" where
  \<comment> \<open>\<^verbatim>\<open>errEl.length && warnEl.length && noteEl.length && dateEl.length\<close>\<close>
  "has_stats c \<longleftrightarrow> danger_text c \<noteq> None \<and> warning_text c \<noteq> None \<and> info_text c \<noteq> None
                    \<and> last_run_text c \<noteq> None"

definition text_of :: "string option \<Rightarrow> string" where
  \<comment> \<open>jQuery's \<^verbatim>\<open>.text()\<close>: empty on an empty selection\<close>
  "text_of t = (case t of Some s \<Rightarrow> s | None \<Rightarrow> [])"

definition extract_task :: "card \<Rightarrow> (string \<times> obj) option" where
  \<comment> \<open>the body of the \<^verbatim>\<open>each\<close> loop of \<^verbatim>\<open>syncFromDOM\<close>: the id and the task read off a card\<close>
  "extract_task c = (case data_task_id c of
       None \<Rightarrow> None
     | Some i \<Rightarrow>
         if i = [] then None
         else
           (let task = [(''id'', JStr i), (''name'', JStr (trim (card_name c))),
                        (''url'', JStr (trim (card_url c))),
                        (''standard'', JStr (strip_parens (trim (card_standard c))))]
            in Some (i,
                 if has_stats c
                 then js_set ''last_result''
                        (JObj [(''date'', JStr (trim (strip_last_run
                                   (text_of (last_run_text c) @ text_of (run_count_text c))))),
                               (''count'', JObj
                                  [(''error'', JNum (parseInt_or_0 (text_of (danger_text c)))),
                                   (''warning'', JNum (parseInt_or_0 (text_of (warning_text c)))),
                                   (''notice'', JNum (parseInt_or_0 (text_of (info_text c))))])])
                        task
                 else task)))"

text \<open>
  \<^verbatim>\<open>domTasks\<close> is a plain object indexed by task ids. Writing \<^verbatim>\<open>domTasks[id] = task\<close> creates or
  replaces an own property, except under the name \<^verbatim>\<open>__proto__\<close>, where it makes the task
  the prototype of \<^verbatim>\<open>domTasks\<close> and creates no property. Reading \<^verbatim>\<open>domTasks[k]\<close> finds an own
  property, else a property of that prototype, else a member of \<^verbatim>\<open>Object.prototype\<close>.
\<close>

definition Object_prototype_members :: "string list" where
  \<comment> \<open>the names every plain object inherits; each of them reads as a function or an object\<close>
  "Object_prototype_members =
     [''constructor'', ''__defineGetter__'', ''__defineSetter__'', ''hasOwnProperty'',
      ''__lookupGetter__'', ''__lookupSetter__'', ''isPrototypeOf'', ''propertyIsEnumerable'',
      ''toString'', ''valueOf'', ''__proto__'', ''toLocaleString'']"

definition domTasks_of :: "card list \<Rightarrow> (string \<times> obj) list" where
  \<comment> \<open>the own properties of \<^verbatim>\<open>domTasks\<close>: a later card with the same id replaces an earlier one\<close>
  "domTasks_of cards =
     fold (\<lambda>c d. case extract_task c of
                    Some (i, task) \<Rightarrow> if i = ''__proto__'' then d else AList.update i task d
                  | None \<Rightarrow> d) cards []"

definition domTasks_proto :: "card list \<Rightarrow> obj option" where
  \<comment> \<open>the task that a card with the id \<^verbatim>\<open>__proto__\<close> made the prototype of \<^verbatim>\<open>domTasks\<close>\<close>
  "domTasks_proto cards =
     fold (\<lambda>c p. case extract_task c of
                    Some (i, task) \<Rightarrow> if i = ''__proto__'' then Some task else p
                  | None \<Rightarrow> p) cards None"

definition in_domTasks :: "card list \<Rightarrow> string \<Rightarrow> bool" where
  \<comment> \<open>\<^verbatim>\<open>domTasks[k]\<close> is truthy\<close>
  "in_domTasks cards k \<longleftrightarrow>
     map_of (domTasks_of cards) k \<noteq> None
   \<or> (case domTasks_proto cards of Some task \<Rightarrow> truthy (js_get task k) | None \<Rightarrow> False)
   \<or> k \<in> set Object_prototype_members"

definition merged :: "obj option \<Rightarrow> obj \<Rightarrow> obj" where
  \<comment> \<open>\<^verbatim>\<open>Object.assign({}, existing || {}, domTasks[id])\<close>\<close>
  "merged existing domTask =
     Object_assign (Object_assign [] (case existing of Some e \<Rightarrow> e | None \<Rightarrow> [])) domTask"

definition save_dom_task :: "string \<Rightarrow> obj \<Rightarrow> durable \<Rightarrow> durable" where
  \<comment> \<open>one of the \<^verbatim>\<open>savePromises\<close>: merge with the stored task and save; on an error save
      the task of the page alone\<close>
  "save_dom_task i domTask db =
     (case saveTask (JObj (merged (getTask i db) domTask)) db of
        Inr db' \<Rightarrow> db'
      | Inl err \<Rightarrow> after (saveTask (JObj domTask) db) db)"

definition id_of :: "obj \<Rightarrow> string option" where
  \<comment> \<open>\<^verbatim>\<open>t.id\<close> of a stored record: the string it is filed under\<close>
  "id_of t = (case js_get t ''id'' of JStr i \<Rightarrow> Some i | _ \<Rightarrow> None)"

definition syncFromDOM :: "bool \<Rightarrow> card list \<Rightarrow> durable \<Rightarrow> durable" where
  \<comment> \<open>the first argument tells whether the page URL has the \<^verbatim>\<open>deleted\<close> parameter; store
      requests are taken to succeed. The stored tasks to delete are those with
      \<^verbatim>\<open>!domTasks[t.id]\<close>\<close>
  "syncFromDOM deleted cards db =
     (let domTasks = domTasks_of cards;
          db1 = fold (\<lambda>(i, task) d. save_dom_task i task d) domTasks db
      in if deleted
         then fold (\<lambda>i d. snd (deleteTask None i d))
                (filter (\<lambda>i. \<not> in_domTasks cards i) (List.map_filter id_of (getTasks db1))) db1
         else db1)"











section \<open>The edit manager\<close>







definition text_or_empty :: "jsval \<Rightarrow> string" where
  \<comment> \<open>the text a control shows for \<^verbatim>\<open>v || ''\<close>\<close>
  "text_or_empty v = (if truthy v then ToString v else [])"








definition string_or_undefined :: "string \<Rightarrow> jsval" where
  \<comment> \<open>\<^verbatim>\<open>s ? s : undefined\<close>\<close>
  "string_or_undefined s = (if s \<noteq> [] then JStr s else JUndef)"


















section \<open>Sample data\<close>

definition cardA :: card where
  \<comment> \<open>a server-rendered card without statistics\<close>
  "cardA = \<lparr>data_task_id = Some ''A'', card_href = ''/A'', card_name = '' Site A '',
     card_url = ''example.com'', card_standard = ''(WCAG2AA)'',
     danger_text = None, warning_text = None, info_text = None, last_run_text = None,
     run_count_text = None, no_results_text = Some ''No results''\<rparr>"


definition storeInherited :: durable where
  \<comment> \<open>the task \<open>A\<close> and a task whose id is the name of an inherited member, one result each\<close>
  "storeInherited =
     \<lparr>tasks = [(''A'', [(''id'', JStr ''A''), (''name'', JStr ''old'')]),
               (''constructor'', [(''id'', JStr ''constructor''), (''name'', JStr ''c'')])],
      results = [(''R1'', [(''id'', JStr ''R1''), (''task'', JStr ''A'')]),
                 (''R2'', [(''id'', JStr ''R2''), (''task'', JStr ''constructor'')])]\<rparr>"

definition storeCascade :: durable where
  \<comment> \<open>the tasks \<open>A\<close> and \<open>B\<close>; two results of \<open>A\<close> with one of \<open>B\<close> between them\<close>
  "storeCascade =
     \<lparr>tasks = [(''A'', [(''id'', JStr ''A'')]), (''B'', [(''id'', JStr ''B'')])],
      results = [(''R1'', [(''id'', JStr ''R1''), (''task'', JStr ''A'')]),
                 (''R2'', [(''id'', JStr ''R2''), (''task'', JStr ''B'')]),
                 (''R3'', [(''id'', JStr ''R3''), (''task'', JStr ''A'')])]\<rparr>"















section \<open>Properties of the Durable Store\<close>

lemma strict_eq_JStr [simp]: "strict_eq a (JStr i) = (a = JStr i)"
  by (cases a) auto

lemma key_of_SomeD: "key_of x = Some k \<Longrightarrow> \<exists>ob. x = JObj ob \<and> js_get ob ''id'' = JStr k"
  by (auto simp: key_of_def split: jsval.splits)

lemma getTask_after_saveTask:
  "getTask k (after (saveTask x d) d) =
     (case x of JObj ob \<Rightarrow> if key_of x = Some k then Some ob else getTask k d | _ \<Rightarrow> getTask k d)"
  by (auto simp: after_def saveTask_def put_def getTask_def update_conv' split: jsval.splits option.splits)

lemma results_after_saveResult:
  "map_of (results (after (saveResult x d) d)) k =
     (case x of JObj ob \<Rightarrow> if key_of x = Some k then Some ob else map_of (results d) k
              | _ \<Rightarrow> map_of (results d) k)"
  by (auto simp: after_def saveResult_def put_def update_conv' split: jsval.splits option.splits)

lemma tasks_after_saveResult: "tasks (after (saveResult x d) d) = tasks d"
  by (auto simp: after_def saveResult_def split: sum.splits)

lemma results_after_saveTask: "results (after (saveTask x d) d) = results d"
  by (auto simp: after_def saveTask_def split: sum.splits)

subsection \<open>Import\<close>

lemma import_tasks_lookup:
  "getTask k (import_each saveTask xs db) =
     (case find (\<lambda>x. key_of x = Some k) (rev xs) of
        Some (JObj ob) \<Rightarrow> Some ob | _ \<Rightarrow> getTask k db)"
proof (induction xs rule: rev_induct)
  case Nil
  show ?case by (simp add: import_each_def)
next
  case (snoc x xs)
  have step: "import_each saveTask (xs @ [x]) db =
      after (saveTask x (import_each saveTask xs db)) (import_each saveTask xs db)"
    by (simp add: import_each_def)
  show ?case
    unfolding step getTask_after_saveTask using snoc.IH
    by (auto split: jsval.splits option.splits dest: key_of_SomeD)
qed

lemma import_results_lookup:
  "map_of (results (import_each saveResult xs db)) k =
     (case find (\<lambda>x. key_of x = Some k) (rev xs) of
        Some (JObj ob) \<Rightarrow> Some ob | _ \<Rightarrow> map_of (results db) k)"
proof (induction xs rule: rev_induct)
  case Nil
  show ?case by (simp add: import_each_def)
next
  case (snoc x xs)
  have step: "import_each saveResult (xs @ [x]) db =
      after (saveResult x (import_each saveResult xs db)) (import_each saveResult xs db)"
    by (simp add: import_each_def)
  show ?case
    unfolding step results_after_saveResult using snoc.IH
    by (auto split: jsval.splits option.splits dest: key_of_SomeD)
qed

lemma tasks_import_results: "tasks (import_each saveResult xs db) = tasks db"
  by (induction xs rule: rev_induct) (simp_all add: import_each_def tasks_after_saveResult)

lemma getTask_import_results: "getTask k (import_each saveResult xs db) = getTask k db"
  by (simp add: getTask_def tasks_import_results)

lemma results_import_tasks: "results (import_each saveTask xs db) = results db"
  by (induction xs rule: rev_induct) (simp_all add: import_each_def results_after_saveTask)

text \<open>
  C6. Importing a document overwrites: whatever the Durable Store held under an id,
  after the import it holds under that id a task record of the document, whole (the
  last one carrying the id, so the record itself when the document has the id once).
  Nothing of the record stored before remains: the stored record is the imported one.
\<close>

theorem import_overwrites_task:
  assumes doc: "js_get d ''tasks'' = JArr ts"
    and t: "JObj t \<in> set ts" "js_get t ''id'' = JStr k"
  shows "(\<exists>u. JObj u \<in> set ts \<and> js_get u ''id'' = JStr k
              \<and> getTask k (fst (onFileSelected (Some (JObj d)) db)) = Some u)
       \<and> ((\<forall>u. JObj u \<in> set ts \<and> js_get u ''id'' = JStr k \<longrightarrow> u = t)
            \<longrightarrow> getTask k (fst (onFileSelected (Some (JObj d)) db)) = Some t)"
proof -
  let ?db' = "fst (onFileSelected (Some (JObj d)) db)"
  have get: "getTask k ?db' =
      (case find (\<lambda>x. key_of x = Some k) (rev ts) of Some (JObj ob) \<Rightarrow> Some ob | _ \<Rightarrow> getTask k db)"
    by (simp add: onFileSelected_def member_of_def doc array_or_empty_def
          getTask_import_results import_tasks_lookup)
  have "key_of (JObj t) = Some k" using t by (simp add: key_of_def)
  with t(1) have "\<exists>x \<in> set (rev ts). key_of x = Some k" by auto
  then obtain x where x: "find (\<lambda>x. key_of x = Some k) (rev ts) = Some x"
    by (cases "find (\<lambda>x. key_of x = Some k) (rev ts)") (auto simp: find_None_iff)
  then have kx: "key_of x = Some k" and mem: "x \<in> set ts"
    using nth_mem [of _ "rev ts"] by (auto simp: find_Some_iff)
  from kx obtain u where u: "x = JObj u" "js_get u ''id'' = JStr k"
    by (auto dest: key_of_SomeD)
  have stored: "getTask k ?db' = Some u" by (simp add: get x u)
  show ?thesis using stored u mem by auto
qed

theorem import_overwrites_task_witness:
  "js_get [(''tasks'', JArr [JObj [(''id'', JStr ''T1''), (''name'', JStr ''new'')]])] ''tasks''
     = JArr [JObj [(''id'', JStr ''T1''), (''name'', JStr ''new'')]]
   \<and> getTask ''T1'' \<lparr>tasks = [(''T1'', [(''id'', JStr ''T1''), (''name'', JStr ''old''),
                                        (''last_result'', JObj [(''id'', JStr ''R1'')])])],
                     results = []\<rparr> \<noteq> None
   \<and> getTask ''T1'' (fst (onFileSelected
        (Some (JObj [(''tasks'', JArr [JObj [(''id'', JStr ''T1''), (''name'', JStr ''new'')]])]))
        \<lparr>tasks = [(''T1'', [(''id'', JStr ''T1''), (''name'', JStr ''old''),
                            (''last_result'', JObj [(''id'', JStr ''R1'')])])],
         results = []\<rparr>))
      = Some [(''id'', JStr ''T1''), (''name'', JStr ''new'')]"
  using import_overwrites_task
    [of "[(''tasks'', JArr [JObj [(''id'', JStr ''T1''), (''name'', JStr ''new'')]])]"
        "[JObj [(''id'', JStr ''T1''), (''name'', JStr ''new'')]]"
        "[(''id'', JStr ''T1''), (''name'', JStr ''new'')]" "''T1''"
        "\<lparr>tasks = [(''T1'', [(''id'', JStr ''T1''), (''name'', JStr ''old''),
                            (''last_result'', JObj [(''id'', JStr ''R1'')])])],
          results = []\<rparr>"]
  by (simp add: js_get_def getTask_def)

subsection \<open>Export\<close>

lemma map_of_roundtrip_id:
  "map_of ps x = Some (JStr s) \<Longrightarrow>
   map_of (map (\<lambda>(k, v). (k, JSON_roundtrip v)) (filter (\<lambda>(k, v). v \<noteq> JUndef) ps)) x = Some (JStr s)"
  by (induction ps) (auto split: if_splits)

lemma key_of_roundtrip:
  "js_get ob ''id'' = JStr k \<Longrightarrow> key_of (JSON_roundtrip (JObj ob)) = Some k"
  by (auto simp: key_of_def js_get_def map_of_roundtrip_id split: option.splits)

lemma collectData_results:
  "r \<in> set (snd (collectData db)) \<longleftrightarrow>
     r \<in> snd ` set (results db) \<and>
     (\<exists>t \<in> set (getTasks db). strict_eq (js_get r ''task'') (js_get t ''id''))"
  by (auto simp: collectData_def Let_def getResultsByTask_def)

text \<open>
  C10. The export gathers results task by task. A stored result whose \<^verbatim>\<open>task\<close> is the id of
  no stored task is therefore not in the exported results, although the export leaves it
  in the store (\<^verbatim>\<open>collectData\<close> only reads); and importing the exported document into an
  empty Durable Store stores nothing under that result's id.
\<close>

theorem export_omits_orphaned_results:
  assumes stored: "(k, r) \<in> set (results db)"
    and orphan: "\<forall>t \<in> set (getTasks db). \<not> strict_eq (js_get r ''task'') (js_get t ''id'')"
  shows "r \<notin> set (snd (collectData db))
     \<and> (wf_table (results db) \<longrightarrow>
          map_of (results (fst (onFileSelected (Some (exported_document db)) empty_store))) k = None)"
proof (intro conjI impI)
  show out: "r \<notin> set (snd (collectData db))"
    using orphan by (simp add: collectData_results)
  assume wf: "wf_table (results db)"
  obtain ts rs where cd: "collectData db = (ts, rs)" by (cases "collectData db")
  let ?xs = "map (\<lambda>x. if x = JUndef then JNull else JSON_roundtrip x) (map JObj rs)"
  have doc: "exported_document db =
      JObj [(''tasks'', JArr (map (\<lambda>x. if x = JUndef then JNull else JSON_roundtrip x) (map JObj ts))),
            (''results'', JArr ?xs)]"
    by (simp add: exported_document_def cd)
  have nokey: "key_of x \<noteq> Some k" if "x \<in> set ?xs" for x
  proof
    assume kx: "key_of x = Some k"
    from that obtain r' where r': "r' \<in> set rs" and x: "x = JSON_roundtrip (JObj r')" by auto
    from r' cd have "r' \<in> snd ` set (results db)" and "r' \<in> set (snd (collectData db))"
      using collectData_results [of r' db] by auto
    then obtain k' where k': "(k', r') \<in> set (results db)" by auto
    with wf have "js_get r' ''id'' = JStr k'" by (auto simp: wf_table_def)
    then have "key_of x = Some k'" unfolding x by (rule key_of_roundtrip)
    with kx have "k' = k" by simp
    with k' stored wf have "r' = r"
      by (auto simp: wf_table_def dest: eq_key_imp_eq_value)
    with \<open>r' \<in> set (snd (collectData db))\<close> out show False by simp
  qed
  have "find (\<lambda>x. key_of x = Some k) (rev ?xs) = None"
    using nokey by (auto simp: find_None_iff simp del: map_map)
  then show "map_of (results (fst (onFileSelected (Some (exported_document db)) empty_store))) k = None"
    by (simp add: doc onFileSelected_def member_of_def js_get_def array_or_empty_def
          import_results_lookup results_import_tasks empty_store_def del: map_map)
qed

theorem export_omits_orphaned_results_witness:
  "(''R2'', [(''id'', JStr ''R2''), (''task'', JStr ''gone'')])
     \<in> set (results \<lparr>tasks = [(''T1'', [(''id'', JStr ''T1'')])],
                      results = [(''R1'', [(''id'', JStr ''R1''), (''task'', JStr ''T1'')]),
                                 (''R2'', [(''id'', JStr ''R2''), (''task'', JStr ''gone'')])]\<rparr>)
   \<and> wf_table [(''R1'', [(''id'', JStr ''R1''), (''task'', JStr ''T1'')]),
               (''R2'', [(''id'', JStr ''R2''), (''task'', JStr ''gone'')])]
   \<and> [(''id'', JStr ''R2''), (''task'', JStr ''gone'')]
       \<notin> set (snd (collectData \<lparr>tasks = [(''T1'', [(''id'', JStr ''T1'')])],
                      results = [(''R1'', [(''id'', JStr ''R1''), (''task'', JStr ''T1'')]),
                                 (''R2'', [(''id'', JStr ''R2''), (''task'', JStr ''gone'')])]\<rparr>))
   \<and> map_of (results (fst (onFileSelected (Some (exported_document
          \<lparr>tasks = [(''T1'', [(''id'', JStr ''T1'')])],
           results = [(''R1'', [(''id'', JStr ''R1''), (''task'', JStr ''T1'')]),
                      (''R2'', [(''id'', JStr ''R2''), (''task'', JStr ''gone'')])]\<rparr>)) empty_store)))
        ''R2'' = None"
  using export_omits_orphaned_results
    [of "''R2''" "[(''id'', JStr ''R2''), (''task'', JStr ''gone'')]"
        "\<lparr>tasks = [(''T1'', [(''id'', JStr ''T1'')])],
          results = [(''R1'', [(''id'', JStr ''R1''), (''task'', JStr ''T1'')]),
                     (''R2'', [(''id'', JStr ''R2''), (''task'', JStr ''gone'')])]\<rparr>"]
  by (simp add: wf_table_def js_get_def getTasks_def)

subsection \<open>Cascading delete\<close>

lemma fold_removeAll: "fold removeAll L ys = filter (\<lambda>y. y \<notin> set L) ys"
  by (induction L arbitrary: ys) (auto simp: removeAll_filter_not_eq intro!: filter_cong)

lemma fold_at_cursor:
  "fold apply_request (concat (map (at_cursor i) rs)) db =
     db\<lparr>results := filter (\<lambda>y. y \<notin> set (filter (\<lambda>kr. js_get (snd kr) ''task'' = JStr i) rs))
                          (results db)\<rparr>"
proof (induction rs arbitrary: db)
  case Nil
  show ?case by simp
next
  case (Cons r rs)
  have step: "fold apply_request (at_cursor i r) db =
      db\<lparr>results := (if js_get (snd r) ''task'' = JStr i then removeAll r (results db)
                         else results db)\<rparr>"
    by (simp add: at_cursor_def)
  have "filter (\<lambda>y. y \<notin> set (filter (\<lambda>kr. js_get (snd kr) ''task'' = JStr i) rs))
          (if js_get (snd r) ''task'' = JStr i then removeAll r (results db) else results db)
      = filter (\<lambda>y. y \<notin> set (filter (\<lambda>kr. js_get (snd kr) ''task'' = JStr i) (r # rs)))
          (results db)"
    by (auto simp: removeAll_filter_not_eq intro!: filter_cong)
  then show ?case
    by (simp only: list.map concat.simps fold_append comp_def step Cons.IH) simp
qed

lemma deleteTask_requests_effect:
  "fold apply_request (deleteTask_requests i db) db =
     db\<lparr>tasks := AList.delete i (tasks db),
        results := filter (\<lambda>kr. js_get (snd kr) ''task'' \<noteq> JStr i) (results db)\<rparr>"
proof -
  have "filter (\<lambda>y. y \<notin> set (filter (\<lambda>kr. js_get (snd kr) ''task'' = JStr i) (results db)))
          (results db)
      = filter (\<lambda>kr. js_get (snd kr) ''task'' \<noteq> JStr i) (results db)"
    by (rule filter_cong) auto
  then show ?thesis
    by (simp add: deleteTask_requests_def fold_at_cursor)
qed

lemma run_requests_eq:
  "run_requests failing requests work =
     (if \<exists>n. failing = Some n \<and> n < length requests then None
      else Some (fold apply_request requests work))"
proof (induction requests arbitrary: failing work)
  case Nil
  show ?case by simp
next
  case (Cons r rs)
  show ?case
  proof (cases failing)
    case None
    then show ?thesis by (simp add: Cons.IH)
  next
    case (Some n)
    then show ?thesis by (cases n) (simp_all add: Cons.IH)
  qed
qed

text \<open>
  C3. \<^verbatim>\<open>deleteTask\<close> is one transaction, and among the requests of that one transaction
  are the deletion of the task and the deletion of every result whose \<^verbatim>\<open>task\<close> is the id,
  so it spans both tables. When a request of the transaction fails, at whatever position of the
  cascade, the operation is reported as failed and both tables are exactly as they were
  before, also when earlier requests of the cascade had already done their work. When no
  request fails the operation succeeds, and afterwards the task with the id is gone and
  so is every result whose \<^verbatim>\<open>task\<close> is the id, while every other task and every other
  result is still there.
\<close>

theorem deleteTask_cascade_atomic:
  "deleteTask failing i db = transact failing (deleteTask_requests i db) db
   \<and> Delete_task i \<in> set (deleteTask_requests i db)
   \<and> (\<forall>kr \<in> set (results db).
         js_get (snd kr) ''task'' = JStr i \<longrightarrow> Delete_at kr \<in> set (deleteTask_requests i db))
   \<and> ((\<exists>n. failing = Some n \<and> n < length (deleteTask_requests i db)) \<longrightarrow>
         deleteTask failing i db = (Some TransactionError, db))
   \<and> (\<not> (\<exists>n. failing = Some n \<and> n < length (deleteTask_requests i db)) \<longrightarrow>
         (\<exists>db'. deleteTask failing i db = (None, db')
            \<and> getTask i db' = None
            \<and> getResultsByTask (JStr i) db' = []
            \<and> (\<forall>kr \<in> set (results db'). js_get (snd kr) ''task'' \<noteq> JStr i)
            \<and> (\<forall>j. j \<noteq> i \<longrightarrow> getTask j db' = getTask j db)
            \<and> (\<forall>kr \<in> set (results db).
                  js_get (snd kr) ''task'' \<noteq> JStr i \<longrightarrow> kr \<in> set (results db'))))"
proof (intro conjI impI)
  show "deleteTask failing i db = transact failing (deleteTask_requests i db) db"
    by (simp add: deleteTask_def)
  show "Delete_task i \<in> set (deleteTask_requests i db)"
    by (simp add: deleteTask_requests_def)
  show "\<forall>kr \<in> set (results db).
          js_get (snd kr) ''task'' = JStr i \<longrightarrow> Delete_at kr \<in> set (deleteTask_requests i db)"
    by (auto simp: deleteTask_requests_def at_cursor_def)
next
  assume "\<exists>n. failing = Some n \<and> n < length (deleteTask_requests i db)"
  then show "deleteTask failing i db = (Some TransactionError, db)"
    by (simp add: deleteTask_def transact_def run_requests_eq)
next
  assume ok: "\<not> (\<exists>n. failing = Some n \<and> n < length (deleteTask_requests i db))"
  define db' where "db' = fold apply_request (deleteTask_requests i db) db"
  have res: "deleteTask failing i db = (None, db')"
    using ok by (simp add: deleteTask_def transact_def run_requests_eq db'_def)
  have eff: "db' = db\<lparr>tasks := AList.delete i (tasks db),
        results := filter (\<lambda>kr. js_get (snd kr) ''task'' \<noteq> JStr i) (results db)\<rparr>"
    by (simp add: db'_def deleteTask_requests_effect)
  show "\<exists>db'. deleteTask failing i db = (None, db')
            \<and> getTask i db' = None
            \<and> getResultsByTask (JStr i) db' = []
            \<and> (\<forall>kr \<in> set (results db'). js_get (snd kr) ''task'' \<noteq> JStr i)
            \<and> (\<forall>j. j \<noteq> i \<longrightarrow> getTask j db' = getTask j db)
            \<and> (\<forall>kr \<in> set (results db).
                  js_get (snd kr) ''task'' \<noteq> JStr i \<longrightarrow> kr \<in> set (results db'))"
  proof (intro exI [of _ db'] conjI)
    show "deleteTask failing i db = (None, db')" by (rule res)
    show "getTask i db' = None" by (simp add: eff getTask_def delete_conv')
    show "getResultsByTask (JStr i) db' = []"
      by (auto simp: eff getResultsByTask_def filter_empty_conv)
    show "\<forall>kr \<in> set (results db'). js_get (snd kr) ''task'' \<noteq> JStr i" by (simp add: eff)
    show "\<forall>j. j \<noteq> i \<longrightarrow> getTask j db' = getTask j db"
      by (simp add: eff getTask_def delete_conv')
    show "\<forall>kr \<in> set (results db).
            js_get (snd kr) ''task'' \<noteq> JStr i \<longrightarrow> kr \<in> set (results db')"
      by (simp add: eff)
  qed
qed

theorem deleteTask_cascade_atomic_witness:
  "deleteTask None ''A'' storeCascade
     = (None, \<lparr>tasks = [(''B'', [(''id'', JStr ''B'')])],
               results = [(''R2'', [(''id'', JStr ''R2''), (''task'', JStr ''B'')])]\<rparr>)
   \<and> deleteTask_requests ''A'' storeCascade
     = [Delete_task ''A'', Open_cursor,
        Delete_at (''R1'', [(''id'', JStr ''R1''), (''task'', JStr ''A'')]), Continue,
        Continue,
        Delete_at (''R3'', [(''id'', JStr ''R3''), (''task'', JStr ''A'')]), Continue]
   \<and> run_requests None (take 5 (deleteTask_requests ''A'' storeCascade)) storeCascade
     = Some \<lparr>tasks = [(''B'', [(''id'', JStr ''B'')])],
             results = [(''R2'', [(''id'', JStr ''R2''), (''task'', JStr ''B'')]),
                        (''R3'', [(''id'', JStr ''R3''), (''task'', JStr ''A'')])]\<rparr>
   \<and> deleteTask (Some 5) ''A'' storeCascade = (Some TransactionError, storeCascade)"
proof -
  have reqs: "deleteTask_requests ''A'' storeCascade
     = [Delete_task ''A'', Open_cursor,
        Delete_at (''R1'', [(''id'', JStr ''R1''), (''task'', JStr ''A'')]), Continue,
        Continue,
        Delete_at (''R3'', [(''id'', JStr ''R3''), (''task'', JStr ''A'')]), Continue]"
    by code_simp
  have bad: "\<exists>n. Some (5 :: nat) = Some n \<and> n < length (deleteTask_requests ''A'' storeCascade)"
    by (simp add: reqs)
  have ev: "deleteTask None ''A'' storeCascade
     = (None, \<lparr>tasks = [(''B'', [(''id'', JStr ''B'')])],
               results = [(''R2'', [(''id'', JStr ''R2''), (''task'', JStr ''B'')])]\<rparr>)"
    by code_simp
  have part: "run_requests None (take 5 (deleteTask_requests ''A'' storeCascade)) storeCascade
     = Some \<lparr>tasks = [(''B'', [(''id'', JStr ''B'')])],
             results = [(''R2'', [(''id'', JStr ''R2''), (''task'', JStr ''B'')]),
                        (''R3'', [(''id'', JStr ''R3''), (''task'', JStr ''A'')])]\<rparr>"
    by code_simp
  have good: "\<not> (\<exists>n. (None :: nat option) = Some n \<and> n < length (deleteTask_requests ''A'' storeCascade))"
    by simp
  note success = deleteTask_cascade_atomic [of None "''A''" storeCascade,
      THEN conjunct2, THEN conjunct2, THEN conjunct2, THEN conjunct2, THEN mp, OF good]
  then obtain db' where "deleteTask None ''A'' storeCascade = (None, db')"
    and "getTask ''A'' db' = None" and "getResultsByTask (JStr ''A'') db' = []"
    by (elim exE conjE)
  moreover have "deleteTask (Some 5) ''A'' storeCascade = (Some TransactionError, storeCascade)"
    using bad deleteTask_cascade_atomic [of "Some 5" "''A''" storeCascade] by blast
  ultimately show ?thesis using reqs ev part by simp
qed

text \<open>
  The single transaction is what makes the difference. Had the task been deleted in a
  transaction of its own and the results in a second one, a failure of the second would
  leave the task deleted and all its results stored.
\<close>

lemma separate_transactions_commit_separately:
  "transact (Some 2) (tl (deleteTask_requests ''A'' storeCascade))
     (snd (transact None [Delete_task ''A''] storeCascade))
   = (Some TransactionError,
      \<lparr>tasks = [(''B'', [(''id'', JStr ''B'')])], results = results storeCascade\<rparr>)"
  by code_simp

section \<open>Properties of the run paths\<close>

lemma fold_tally_error:
  "error (fold tally xs c) = error c + length (filter (\<lambda>i. issue_type i = ''error'') xs)"
  by (induction xs arbitrary: c) (auto simp: tally_def)

lemma fold_tally_warning:
  "warning (fold tally xs c) = warning c + length (filter (\<lambda>i. issue_type i = ''warning'') xs)"
  by (induction xs arbitrary: c) (auto simp: tally_def)

lemma fold_tally_notice:
  "notice (fold tally xs c) = notice c + length (filter (\<lambda>i. issue_type i = ''notice'') xs)"
  by (induction xs arbitrary: c) (auto simp: tally_def)

lemma three_types_partition:
  "length (filter (\<lambda>i. issue_type i = ''error'') xs)
     + length (filter (\<lambda>i. issue_type i = ''warning'') xs)
     + length (filter (\<lambda>i. issue_type i = ''notice'') xs)
   = length (filter (\<lambda>i. issue_type i \<in> {''error'', ''warning'', ''notice''}) xs)"
  by (induction xs) auto

text \<open>
  C4, as far as it holds. For every result built by the run manager or by the in-memory
  webservice from the engine's issues, each of \<^verbatim>\<open>count.error\<close>, \<^verbatim>\<open>count.warning\<close> and
  \<^verbatim>\<open>count.notice\<close> is the number of stored issues of that type. Their sum is the number of
  stored issues whose type is one of the three; it is the length of the stored list
  when the engine reports no other type.
\<close>

theorem result_counts_tally:
  assumes "r = client_result resultId date taskId task pa11yResult
         \<or> r = transformResult resultId date tid task pa11yResult"
  shows "error (result_count r) = length (filter (\<lambda>i. issue_type i = ''error'') (result_results r))
       \<and> warning (result_count r) = length (filter (\<lambda>i. issue_type i = ''warning'') (result_results r))
       \<and> notice (result_count r) = length (filter (\<lambda>i. issue_type i = ''notice'') (result_results r))
       \<and> error (result_count r) + warning (result_count r) + notice (result_count r)
           = length (filter (\<lambda>i. issue_type i \<in> {''error'', ''warning'', ''notice''}) (result_results r))
       \<and> ((\<forall>i \<in> set (result_results r). issue_type i \<in> {''error'', ''warning'', ''notice''})
            \<longrightarrow> error (result_count r) + warning (result_count r) + notice (result_count r)
                  = length (result_results r))"
proof -
  obtain xs where xs: "result_results r = xs" "result_count r = fold tally xs no_counts"
    using assms by (cases pa11yResult) (auto simp: client_result_def transformResult_def countIssues_def)
  have e: "error (result_count r) = length (filter (\<lambda>i. issue_type i = ''error'') xs)"
    by (simp add: xs fold_tally_error no_counts_def)
  have w: "warning (result_count r) = length (filter (\<lambda>i. issue_type i = ''warning'') xs)"
    by (simp add: xs fold_tally_warning no_counts_def)
  have n: "notice (result_count r) = length (filter (\<lambda>i. issue_type i = ''notice'') xs)"
    by (simp add: xs fold_tally_notice no_counts_def)
  have s: "error (result_count r) + warning (result_count r) + notice (result_count r)
      = length (filter (\<lambda>i. issue_type i \<in> {''error'', ''warning'', ''notice''}) xs)"
    unfolding e w n by (rule three_types_partition)
  have "length (filter (\<lambda>i. issue_type i \<in> {''error'', ''warning'', ''notice''}) xs) = length xs"
    if "\<forall>i \<in> set xs. issue_type i \<in> {''error'', ''warning'', ''notice''}"
    using that by (simp add: filter_id_conv)
  with e w n s show ?thesis unfolding xs(1) by presburger
qed

theorem result_counts_tally_witness:
  "result_count (client_result ''R1'' ''2025-01-01'' ''T1'' []
       (Some [\<lparr>issue_code = ''a'', issue_type = ''error'', issue_message = ''m'',
               issue_context = ''x'', issue_selector = ''s''\<rparr>,
              \<lparr>issue_code = ''b'', issue_type = ''warning'', issue_message = ''m'',
               issue_context = ''x'', issue_selector = ''s''\<rparr>,
              \<lparr>issue_code = ''c'', issue_type = ''error'', issue_message = ''m'',
               issue_context = ''x'', issue_selector = ''s''\<rparr>]))
     = \<lparr>error = 2, warning = 1, notice = 0\<rparr>
   \<and> length (result_results (client_result ''R1'' ''2025-01-01'' ''T1'' []
       (Some [\<lparr>issue_code = ''a'', issue_type = ''error'', issue_message = ''m'',
               issue_context = ''x'', issue_selector = ''s''\<rparr>,
              \<lparr>issue_code = ''b'', issue_type = ''warning'', issue_message = ''m'',
               issue_context = ''x'', issue_selector = ''s''\<rparr>,
              \<lparr>issue_code = ''c'', issue_type = ''error'', issue_message = ''m'',
               issue_context = ''x'', issue_selector = ''s''\<rparr>]))) = 3"
  using result_counts_tally
    [of "client_result ''R1'' ''2025-01-01'' ''T1'' []
       (Some [\<lparr>issue_code = ''a'', issue_type = ''error'', issue_message = ''m'',
               issue_context = ''x'', issue_selector = ''s''\<rparr>,
              \<lparr>issue_code = ''b'', issue_type = ''warning'', issue_message = ''m'',
               issue_context = ''x'', issue_selector = ''s''\<rparr>,
              \<lparr>issue_code = ''c'', issue_type = ''error'', issue_message = ''m'',
               issue_context = ''x'', issue_selector = ''s''\<rparr>])"
        "''R1''" "''2025-01-01''" "''T1''" "[]"
        "Some [\<lparr>issue_code = ''a'', issue_type = ''error'', issue_message = ''m'',
               issue_context = ''x'', issue_selector = ''s''\<rparr>,
              \<lparr>issue_code = ''b'', issue_type = ''warning'', issue_message = ''m'',
               issue_context = ''x'', issue_selector = ''s''\<rparr>,
              \<lparr>issue_code = ''c'', issue_type = ''error'', issue_message = ''m'',
               issue_context = ''x'', issue_selector = ''s''\<rparr>]"]
  by (simp add: client_result_def countIssues_def tally_def no_counts_def)

text \<open>
  C4 as stated fails: the engine may report an issue of another type (pa11y writes
  \<^verbatim>\<open>unknown\<close> for a type code it does not know). The issue is stored and no tally counts
  it, so the three tallies sum to 0 while the stored list has one entry.
\<close>

theorem result_counts_sum_counterexample:
  "error (result_count (client_result ''R1'' ''2025-01-01'' ''T1'' []
       (Some [\<lparr>issue_code = ''c'', issue_type = ''unknown'', issue_message = ''m'',
               issue_context = ''x'', issue_selector = ''s''\<rparr>])))
   + warning (result_count (client_result ''R1'' ''2025-01-01'' ''T1'' []
       (Some [\<lparr>issue_code = ''c'', issue_type = ''unknown'', issue_message = ''m'',
               issue_context = ''x'', issue_selector = ''s''\<rparr>])))
   + notice (result_count (client_result ''R1'' ''2025-01-01'' ''T1'' []
       (Some [\<lparr>issue_code = ''c'', issue_type = ''unknown'', issue_message = ''m'',
               issue_context = ''x'', issue_selector = ''s''\<rparr>])))
   \<noteq> length (result_results (client_result ''R1'' ''2025-01-01'' ''T1'' []
       (Some [\<lparr>issue_code = ''c'', issue_type = ''unknown'', issue_message = ''m'',
               issue_context = ''x'', issue_selector = ''s''\<rparr>])))"
  by (simp add: client_result_def countIssues_def tally_def no_counts_def)

lemma task_from_header_props:
  "task_from_header taskId header = Some task \<Longrightarrow>
     js_get task ''id'' = JStr taskId \<and> js_get task ''last_result'' = JUndef"
  by (auto simp: task_from_header_def js_get_def split: option.splits if_splits)

lemma runTask_failed:
  assumes failed: "\<forall>payload. fetch_failed (fetch payload)"
  shows "runTask header fetch resultId date taskId db =
     (case getTask taskId db of
        Some task \<Rightarrow> (db, run_failure_alert)
      | None \<Rightarrow> (case task_from_header taskId header of
                   Some task \<Rightarrow> (after (saveTask (JObj task) db) db, run_failure_alert)
                 | None \<Rightarrow> (db, Alert ''Task not found in local storage'')))"
proof -
  have f: "(case fetch p of NetworkFailure \<Rightarrow> (d, run_failure_alert)
            | Response status body \<Rightarrow>
                if \<not> response_ok status then (d, run_failure_alert)
                else (case body of None \<Rightarrow> (d, run_failure_alert)
                      | Some pa11yResult \<Rightarrow> store_run resultId date taskId task pa11yResult d))
           = (d, run_failure_alert)" for p d task
    using failed [rule_format, of p] by (cases "fetch p") (auto simp: fetch_failed_def)
  show ?thesis
    by (simp add: runTask_def f split: option.splits)
qed

text \<open>
  C5. When the request to \<^verbatim>\<open>/api/run\<close> errors or answers with a status that is not ok, the
  run manager writes no result, leaves every stored task record as it was (the store
  itself when it already held the task) and the task's \<^verbatim>\<open>last_result\<close> as it was, and shows
  an alert instead of reloading. When the store did not hold the task, the record read
  off the page header was saved before the request; it carries no \<^verbatim>\<open>last_result\<close>. On the
  webservice, an engine failure changes neither map and is handed to the callback.
\<close>

theorem failed_run_changes_nothing:
  assumes failed: "\<forall>payload. fetch_failed (fetch payload)"
  shows "results (fst (runTask header fetch resultId date taskId db)) = results db
       \<and> (\<forall>j t. getTask j db = Some t \<longrightarrow>
              getTask j (fst (runTask header fetch resultId date taskId db)) = Some t)
       \<and> (getTask taskId db \<noteq> None \<longrightarrow> fst (runTask header fetch resultId date taskId db) = db)
       \<and> last_result_of taskId (fst (runTask header fetch resultId date taskId db))
           = last_result_of taskId db
       \<and> (\<exists>text. snd (runTask header fetch resultId date taskId db) = Alert text)
       \<and> fst (ws_run (Inl err) resultId date taskId ws) = ws
       \<and> snd (ws_run (Inl err) resultId date taskId ws) \<noteq> None"
proof -
  have ws: "fst (ws_run (Inl err) resultId date taskId ws) = ws
          \<and> snd (ws_run (Inl err) resultId date taskId ws) \<noteq> None"
    by (simp add: ws_run_def split: option.splits)
  show ?thesis
  proof (cases "getTask taskId db")
    case (Some task)
    then show ?thesis
      using ws by (simp add: runTask_failed [OF failed] run_failure_alert_def)
  next
    case None
    show ?thesis
    proof (cases "task_from_header taskId header")
      case absent: None
      with None show ?thesis
        using ws by (simp add: runTask_failed [OF failed])
    next
      case (Some task)
      note props = task_from_header_props [OF Some]
      have k: "key_of (JObj task) = Some taskId" using props by (simp add: key_of_def)
      have other: "getTask j (after (saveTask (JObj task) db) db) = Some t"
        if "getTask j db = Some t" for j t
        using that None k by (auto simp: getTask_after_saveTask)
      have lr: "last_result_of taskId (after (saveTask (JObj task) db) db) = last_result_of taskId db"
        using None k props by (simp add: last_result_of_def getTask_after_saveTask)
      show ?thesis
        using ws None Some other lr
        by (simp add: runTask_failed [OF failed] results_after_saveTask run_failure_alert_def)
    qed
  qed
qed

theorem failed_run_changes_nothing_witness:
  "(\<forall>payload. fetch_failed ((\<lambda>p. Response 500 None) payload))
   \<and> runTask None (\<lambda>p. Response 500 None) ''R2'' ''2025-01-02'' ''T1''
        \<lparr>tasks = [(''T1'', [(''id'', JStr ''T1''), (''url'', JStr ''https://example.com''),
                            (''last_result'', JObj [(''id'', JStr ''R1'')])])],
         results = [(''R1'', [(''id'', JStr ''R1''), (''task'', JStr ''T1'')])]\<rparr>
     = (\<lparr>tasks = [(''T1'', [(''id'', JStr ''T1''), (''url'', JStr ''https://example.com''),
                            (''last_result'', JObj [(''id'', JStr ''R1'')])])],
         results = [(''R1'', [(''id'', JStr ''R1''), (''task'', JStr ''T1'')])]\<rparr>,
        Alert ''Failed to run accessibility analysis: '')"
  using failed_run_changes_nothing
    [of "\<lambda>p. Response 500 None" None "''R2''" "''2025-01-02''" "''T1''"
        "\<lparr>tasks = [(''T1'', [(''id'', JStr ''T1''), (''url'', JStr ''https://example.com''),
                            (''last_result'', JObj [(''id'', JStr ''R1'')])])],
          results = [(''R1'', [(''id'', JStr ''R1''), (''task'', JStr ''T1'')])]\<rparr>"]
  by (simp add: fetch_failed_def response_ok_def runTask_def getTask_def run_failure_alert_def)

text \<open>
  C9. \<^verbatim>\<open>remove\<close> of the in-memory webservice never reports an error; afterwards the id
  has neither a task nor a result list, every other id has what it had, and removing
  again changes nothing. The delete-POST handler answers with a redirect to the list
  page carrying the \<^verbatim>\<open>deleted\<close> marker whatever \<^verbatim>\<open>remove\<close> reports.
\<close>

theorem remove_idempotent:
  "snd (ws_remove i ws) = None
   \<and> map_of (ws_tasks (fst (ws_remove i ws))) i = None
   \<and> map_of (ws_results (fst (ws_remove i ws))) i = None
   \<and> (\<forall>j. j \<noteq> i \<longrightarrow> map_of (ws_tasks (fst (ws_remove i ws))) j = map_of (ws_tasks ws) j
                    \<and> map_of (ws_results (fst (ws_remove i ws))) j = map_of (ws_results ws) j)
   \<and> ws_remove i (fst (ws_remove i ws)) = ws_remove i ws
   \<and> snd (del_post remove i w) = Redirect ''/?deleted''
   \<and> del_post ws_remove i ws = (fst (ws_remove i ws), Redirect ''/?deleted'')"
  by (auto simp: ws_remove_def del_post_def delete_conv' delete_idem split: prod.splits)

theorem remove_idempotent_witness:
  "ws_remove ''B'' \<lparr>ws_tasks = [(''A'', [(''id'', JStr ''A'')])], ws_results = [(''A'', [])]\<rparr>
     = (\<lparr>ws_tasks = [(''A'', [(''id'', JStr ''A'')])], ws_results = [(''A'', [])]\<rparr>, None)
   \<and> ws_remove ''A'' \<lparr>ws_tasks = [(''A'', [(''id'', JStr ''A'')])], ws_results = [(''A'', [])]\<rparr>
     = (\<lparr>ws_tasks = [], ws_results = []\<rparr>, None)
   \<and> snd (del_post (\<lambda>i ws. (ws, Some NotFound)) ''A'' ()) = Redirect ''/?deleted''"
  using remove_idempotent
    [of "''A''" "\<lparr>ws_tasks = [(''A'', [(''id'', JStr ''A'')])], ws_results = [(''A'', [])]\<rparr>"
        "\<lambda>i ws. (ws, Some NotFound)" "()"]
  by (simp add: ws_remove_def del_post_def AList.delete_eq)

section \<open>Properties of the list-page reconciliation\<close>

lemma fold_update_distinct:
  "distinct (map fst s) \<Longrightarrow>
   map_of (fold (\<lambda>(k, v) t. AList.update k v t) s t) = map_of t ++ map_of s"
proof (induction s arbitrary: t)
  case Nil
  show ?case by simp
next
  case (Cons p s)
  obtain k v where p: "p = (k, v)" by (cases p)
  from Cons.prems p have notin: "k \<notin> fst ` set s" and d: "distinct (map fst s)" by auto
  have "map_of s k = None" using notin by (simp add: map_of_eq_None_iff)
  then show ?case
    by (simp add: p Cons.IH [OF d] update_conv' map_add_upd_left domIff fun_eq_iff map_add_def
          split: option.splits)
qed

lemma map_of_Object_assign:
  "map_of (Object_assign target source) = map_of target ++ map_of source"
  by (simp add: Object_assign_def js_set_def fold_update_distinct distinct_clearjunk map_of_clearjunk)


lemma merged_id: "js_get d ''id'' = JStr i \<Longrightarrow> js_get (merged eo d) ''id'' = JStr i"
  by (auto simp: merged_def js_get_def map_of_Object_assign map_add_def split: option.splits)

lemma extract_task_keys:
  "extract_task c = Some (i, d) \<Longrightarrow>
     fst ` set d = {''id'', ''name'', ''url'', ''standard''} \<union> (if has_stats c then {''last_result''} else {})
     \<and> js_get d ''id'' = JStr i"
  by (auto simp: extract_task_def Let_def js_set_def js_get_def split: option.splits if_splits)

lemma wf_table_alt:
  "wf_table tbl \<longleftrightarrow> distinct (map fst tbl) \<and> (\<forall>k ob. map_of tbl k = Some ob \<longrightarrow> js_get ob ''id'' = JStr k)"
  by (auto simp: wf_table_def)

lemma wf_table_update:
  "wf_table tbl \<Longrightarrow> js_get ob ''id'' = JStr k \<Longrightarrow> wf_table (AList.update k ob tbl)"
  by (auto simp: wf_table_alt distinct_update update_conv' split: if_splits)

lemma save_dom_task_eq:
  assumes "js_get d ''id'' = JStr i"
  shows "save_dom_task i d db = db\<lparr>tasks := AList.update i (merged (getTask i db) d) (tasks db)\<rparr>"
proof -
  have "key_of (JObj (merged eo d)) = Some i" for eo
    using merged_id [OF assms, of eo] by (simp add: key_of_def)
  then show ?thesis
    by (simp add: save_dom_task_def saveTask_def put_def)
qed

lemma save_fold:
  assumes "wf_table ds"
  shows "results (fold (\<lambda>(i, task) d. save_dom_task i task d) ds db) = results db
     \<and> (\<forall>j. getTask j (fold (\<lambda>(i, task) d. save_dom_task i task d) ds db) =
            (case map_of ds j of Some d \<Rightarrow> Some (merged (getTask j db) d) | None \<Rightarrow> getTask j db))
     \<and> (wf_table (tasks db) \<longrightarrow> wf_table (tasks (fold (\<lambda>(i, task) d. save_dom_task i task d) ds db)))"
  using assms
proof (induction ds arbitrary: db)
  case Nil
  show ?case by simp
next
  case (Cons p ds)
  obtain i d where p: "p = (i, d)" by (cases p)
  from Cons.prems p have idd: "js_get d ''id'' = JStr i" and wf': "wf_table ds"
    and notin: "map_of ds i = None"
    by (auto simp: wf_table_def map_of_eq_None_iff)
  let ?db = "save_dom_task i d db"
  have eq: "?db = db\<lparr>tasks := AList.update i (merged (getTask i db) d) (tasks db)\<rparr>"
    by (rule save_dom_task_eq [OF idd])
  note IH = Cons.IH [OF wf', of ?db]
  have r: "results ?db = results db" by (simp add: eq)
  have g: "getTask j ?db = (if j = i then Some (merged (getTask i db) d) else getTask j db)" for j
    by (simp add: eq getTask_def update_conv')
  have w: "wf_table (tasks db) \<Longrightarrow> wf_table (tasks ?db)"
    by (simp add: eq wf_table_update merged_id [OF idd])
  show ?case
    using IH r w notin by (auto simp: p g split: option.splits)
qed

lemma domTasks_fold_wf:
  "wf_table acc \<Longrightarrow>
   wf_table (fold (\<lambda>c d. case extract_task c of
                            Some (i, task) \<Rightarrow> if i = ''__proto__'' then d else AList.update i task d
                          | None \<Rightarrow> d) cards acc)"
  by (induction cards arbitrary: acc)
     (auto split: option.splits intro!: wf_table_update dest: extract_task_keys)

lemma domTasks_wf: "wf_table (domTasks_of cards)"
  unfolding domTasks_of_def by (rule domTasks_fold_wf) (simp add: wf_table_def)



lemma delete_fold:
  "tasks (fold (\<lambda>i d. snd (deleteTask None i d)) L db) = filter (\<lambda>kv. fst kv \<notin> set L) (tasks db)
   \<and> results (fold (\<lambda>i d. snd (deleteTask None i d)) L db)
       = filter (\<lambda>kr. \<forall>i \<in> set L. js_get (snd kr) ''task'' \<noteq> JStr i) (results db)"
proof (induction L arbitrary: db)
  case Nil
  show ?case by simp
next
  case (Cons i L)
  have step: "snd (deleteTask None i db) = fold apply_request (deleteTask_requests i db) db"
    by (simp add: deleteTask_def transact_def run_requests_eq)
  show ?case
    by (auto simp: step Cons.IH deleteTask_requests_effect AList.delete_eq case_prod_beta
          intro!: filter_cong)
qed

lemma stored_ids:
  "wf_table (tasks db) \<Longrightarrow> List.map_filter id_of (getTasks db) = map fst (tasks db)"
proof -
  have "List.map_filter id_of (map snd tbl) = map fst tbl"
    if "\<forall>(k, ob) \<in> set tbl. js_get ob ''id'' = JStr k" for tbl
    using that by (induction tbl) (auto simp: List.map_filter_simps id_of_def)
  then show "wf_table (tasks db) \<Longrightarrow> ?thesis" by (simp add: getTasks_def wf_table_def)
qed

lemma map_of_filter_keys:
  "map_of (filter (\<lambda>kv. fst kv \<notin> S) tbl) j = (if j \<in> S then None else map_of tbl j)"
  by (induction tbl) auto

lemma sync_saved:
  "getTask j (fold (\<lambda>(i, task) d. save_dom_task i task d) (domTasks_of cards) db) =
     (case map_of (domTasks_of cards) j of Some d \<Rightarrow> Some (merged (getTask j db) d)
                                          | None \<Rightarrow> getTask j db)"
  using save_fold [OF domTasks_wf, of cards db] by blast

lemma sync_not_deleted:
  "syncFromDOM False cards db = fold (\<lambda>(i, task) d. save_dom_task i task d) (domTasks_of cards) db"
  by (simp add: syncFromDOM_def Let_def)

lemma sync_deleted:
  "syncFromDOM True cards db =
     fold (\<lambda>i d. snd (deleteTask None i d))
       (filter (\<lambda>i. \<not> in_domTasks cards i)
          (List.map_filter id_of (getTasks (syncFromDOM False cards db))))
       (syncFromDOM False cards db)"
  by (simp add: syncFromDOM_def Let_def)

lemma sync_deleted_lookup:
  "getTask j (syncFromDOM True cards db) =
     (if j \<in> set (filter (\<lambda>i. \<not> in_domTasks cards i)
                    (List.map_filter id_of (getTasks (syncFromDOM False cards db))))
      then None else getTask j (syncFromDOM False cards db))"
  unfolding sync_deleted getTask_def delete_fold [THEN conjunct1] map_of_filter_keys ..




lemma sync_results_kept: "results (syncFromDOM False cards db) = results db"
  using save_fold [OF domTasks_wf, of cards db] by (simp add: sync_not_deleted)

lemma shown_iff: "i \<in> fst ` set (domTasks_of cards) \<longleftrightarrow> map_of (domTasks_of cards) i \<noteq> None"
  by (simp add: map_of_eq_None_iff)

lemma stale_ids:
  assumes wf: "wf_table (tasks db)"
  shows "set (filter (\<lambda>i. \<not> in_domTasks cards i)
               (List.map_filter id_of (getTasks (syncFromDOM False cards db))))
         = {i. getTask i db \<noteq> None \<and> \<not> in_domTasks cards i}"
proof -
  have "wf_table (tasks (syncFromDOM False cards db))"
    using save_fold [OF domTasks_wf, of cards db] wf by (simp add: sync_not_deleted)
  then have ids: "List.map_filter id_of (getTasks (syncFromDOM False cards db))
      = map fst (tasks (syncFromDOM False cards db))"
    by (rule stored_ids)
  define F where "F = syncFromDOM False cards db"
  have stored: "i \<in> fst ` set (tasks F) \<longleftrightarrow> getTask i F \<noteq> None" for i
    by (simp add: getTask_def map_of_eq_None_iff)
  have own: "\<not> in_domTasks cards i \<Longrightarrow> map_of (domTasks_of cards) i = None" for i
    by (simp add: in_domTasks_def)
  have "set (filter (\<lambda>i. \<not> in_domTasks cards i) (map fst (tasks F)))
      = {i. getTask i F \<noteq> None \<and> \<not> in_domTasks cards i}"
    using stored by auto
  also have "\<dots> = {i. getTask i db \<noteq> None \<and> \<not> in_domTasks cards i}"
    by (auto simp: F_def sync_not_deleted sync_saved own)
  finally show ?thesis unfolding ids F_def .
qed

lemma sync_deletes:
  assumes wf: "wf_table (tasks db)"
  shows "getTask i (syncFromDOM True cards db) \<noteq> None \<longleftrightarrow>
           i \<in> fst ` set (domTasks_of cards) \<or> getTask i db \<noteq> None \<and> in_domTasks cards i"
    and "kr \<in> set (results (syncFromDOM True cards db)) \<longleftrightarrow>
           kr \<in> set (results db)
           \<and> \<not> (\<exists>i. getTask i db \<noteq> None \<and> \<not> in_domTasks cards i \<and> js_get (snd kr) ''task'' = JStr i)"
proof -
  note L = stale_ids [OF wf, of cards]
  have own: "map_of (domTasks_of cards) i = Some d \<Longrightarrow> in_domTasks cards i" for d
    by (simp add: in_domTasks_def)
  show "getTask i (syncFromDOM True cards db) \<noteq> None \<longleftrightarrow>
           i \<in> fst ` set (domTasks_of cards) \<or> getTask i db \<noteq> None \<and> in_domTasks cards i"
    unfolding sync_deleted_lookup L
    by (auto simp: shown_iff sync_not_deleted sync_saved own split: option.splits)
  show "kr \<in> set (results (syncFromDOM True cards db)) \<longleftrightarrow>
           kr \<in> set (results db)
           \<and> \<not> (\<exists>i. getTask i db \<noteq> None \<and> \<not> in_domTasks cards i \<and> js_get (snd kr) ''task'' = JStr i)"
    unfolding sync_deleted delete_fold [THEN conjunct2] L sync_results_kept
    by (simp only: set_filter mem_Collect_eq Ball_def) blast
qed

lemma sync_keeps_without_marker:
  "getTask i db \<noteq> None \<Longrightarrow> getTask i (syncFromDOM False cards db) \<noteq> None"
  by (simp add: sync_not_deleted sync_saved split: option.splits)

lemma deletion_propagation_ordinary_ids:
  assumes wf: "wf_table (tasks db)"
    and ordinary: "\<forall>i. getTask i db \<noteq> None \<longrightarrow> i \<notin> set Object_prototype_members"
    and no_proto: "domTasks_proto cards = None"
  shows "getTask i (syncFromDOM True cards db) \<noteq> None \<longleftrightarrow> i \<in> fst ` set (domTasks_of cards)"
    and "getTask i db \<noteq> None \<and> i \<notin> fst ` set (domTasks_of cards)
           \<longrightarrow> getResultsByTask (JStr i) (syncFromDOM True cards db) = []"
    and "kr \<in> set (results (syncFromDOM True cards db)) \<longleftrightarrow>
           kr \<in> set (results db)
           \<and> \<not> (\<exists>i. getTask i db \<noteq> None \<and> i \<notin> fst ` set (domTasks_of cards)
                     \<and> js_get (snd kr) ''task'' = JStr i)"
proof -
  have dom: "in_domTasks cards j \<longleftrightarrow> j \<in> fst ` set (domTasks_of cards)" if "getTask j db \<noteq> None" for j
    using that ordinary no_proto by (simp add: in_domTasks_def shown_iff)
  show a: "getTask i (syncFromDOM True cards db) \<noteq> None \<longleftrightarrow> i \<in> fst ` set (domTasks_of cards)"
    unfolding sync_deletes(1) [OF wf] using dom by blast
  show c: "kr \<in> set (results (syncFromDOM True cards db)) \<longleftrightarrow>
           kr \<in> set (results db)
           \<and> \<not> (\<exists>i. getTask i db \<noteq> None \<and> i \<notin> fst ` set (domTasks_of cards)
                     \<and> js_get (snd kr) ''task'' = JStr i)" for kr
    unfolding sync_deletes(2) [OF wf] using dom by blast
  show "getTask i db \<noteq> None \<and> i \<notin> fst ` set (domTasks_of cards)
           \<longrightarrow> getResultsByTask (JStr i) (syncFromDOM True cards db) = []"
  proof
    assume i: "getTask i db \<noteq> None \<and> i \<notin> fst ` set (domTasks_of cards)"
    have "js_get (snd kr) ''task'' \<noteq> JStr i" if "kr \<in> set (results (syncFromDOM True cards db))" for kr
      using that i unfolding c by blast
    then show "getResultsByTask (JStr i) (syncFromDOM True cards db) = []"
      by (auto simp: getResultsByTask_def filter_empty_conv)
  qed
qed

text \<open>
  C2 does not hold of the script. The stored tasks to delete are selected by
  \<^verbatim>\<open>!domTasks[t.id]\<close>, and \<^verbatim>\<open>domTasks\<close> is a plain object: under an id that is the name of a
  member of \<^verbatim>\<open>Object.prototype\<close> the lookup finds the inherited member, so the task counts as
  rendered. Here the Durable Store, filled by an import, holds the tasks \<open>A\<close> and
  \<open>constructor\<close> with one result each; the page has the \<^verbatim>\<open>deleted\<close> marker and shows \<open>A\<close>
  alone. Afterwards the store still holds the task \<open>constructor\<close> and its result, where
  the specification has \<open>A\<close> alone.
\<close>

theorem deletion_propagation_inherited_name:
  "fst (onFileSelected (Some (JObj [(''tasks'', JArr (map (JObj \<circ> snd) (tasks storeInherited))),
                                     (''results'', JArr (map (JObj \<circ> snd) (results storeInherited)))]))
          empty_store) = storeInherited
   \<and> map fst (domTasks_of [cardA]) = [''A'']
   \<and> map fst (tasks storeInherited) = [''A'', ''constructor'']
   \<and> map fst (tasks (syncFromDOM True [cardA] storeInherited)) = [''A'', ''constructor'']
   \<and> getResultsByTask (JStr ''constructor'') (syncFromDOM True [cardA] storeInherited)
       = [[(''id'', JStr ''R2''), (''task'', JStr ''constructor'')]]"
  by code_simp








section \<open>Properties of the edit manager\<close>












lemma trim_empty [simp]: "trim [] = []" by (simp add: trim_def)




lemma text_or_empty_JStr [simp]: "text_or_empty (JStr s) = s"
  by (simp add: text_or_empty_def)

lemma text_or_empty_string_or_undefined [simp]: "text_or_empty (string_or_undefined s) = s"
  by (simp add: text_or_empty_def string_or_undefined_def)









end
